theory Spec2Isabelle
  imports Complex_Main
begin

section \<open>The power menu of \<^verbatim>\<open>config/.config/scripts/power.py\<close>\<close>

text \<open>
  The script is one GTK window class, \<^verbatim>\<open>PowerMenu\<close>, with four buttons. What the
  toolkit draws is outside this development; what is modelled is everything the handlers
  decide: which external commands are started and in which order, whether the window and
  the confirmation dialog are destroyed, which Python exception leaves a method, what the
  colour loader returns, the text of the style sheet and the colour conversion.

  Python text is modelled as \<^typ>\<open>string\<close> over ASCII characters.
\<close>

subsection \<open>Python values and exceptions\<close>

text \<open>
  What \<^verbatim>\<open>json.load\<close> can return: \<^verbatim>\<open>None\<close>, a bool, an int, a float (the finite
  ones, as the real they denote), a str, a list, or a dict (an association list with the
  keys of the dict, looked up with \<^const>\<open>map_of\<close>).
\<close>

datatype json =
    JNull
  | JBool bool
  | JInt int
  | JFloat real
  | JStr string
  | JArr "json list"
  | JObj "(string \<times> json) list"

text \<open>The exceptions the modelled methods can raise.\<close>

datatype py_error =
    KeyError string
  | TypeError
  | AttributeError
  | ValueError
  | JSONDecodeError
  | OSError
  | CalledProcessError int
  | FileNotFoundError

text \<open>\<^verbatim>\<open>value[key]\<close> with a string key: only a dict can be subscripted so.\<close>

definition getitem :: "json \<Rightarrow> string \<Rightarrow> py_error + json" where
  "getitem v k =
     (case v of
        JObj kvs \<Rightarrow> (case map_of kvs k of None \<Rightarrow> Inl (KeyError k) | Some x \<Rightarrow> Inr x)
      | _ \<Rightarrow> Inl TypeError)"

text \<open>\<^verbatim>\<open>value[k1][k2]\<close>, the first failure leaving the expression.\<close>

definition getitem2 :: "json \<Rightarrow> string \<Rightarrow> string \<Rightarrow> py_error + json" where
  "getitem2 v k1 k2 = (case getitem v k1 of Inl e \<Rightarrow> Inl e | Inr x \<Rightarrow> getitem x k2)"

subsection \<open>Whitespace and \<^verbatim>\<open>str.split()\<close>\<close>

definition py_isspace :: "char \<Rightarrow> bool" where
  "py_isspace c \<longleftrightarrow>
     c \<in> set [CHR 0x09, CHR 0x0A, CHR 0x0B, CHR 0x0C, CHR 0x0D,
               CHR 0x1C, CHR 0x1D, CHR 0x1E, CHR 0x1F, CHR 0x20]"

text \<open>
  \<^verbatim>\<open>cmd.split()\<close> without a separator: the maximal runs of non-whitespace characters.
  The first argument is the word being read, reversed.
\<close>

fun split_from :: "string \<Rightarrow> string \<Rightarrow> string list" where
  "split_from w [] = (if w = [] then [] else [rev w])"
| "split_from w (c # cs) =
     (if py_isspace c then (if w = [] then [] else [rev w]) @ split_from [] cs
      else split_from (c # w) cs)"

definition py_split :: "string \<Rightarrow> string list" where
  "py_split s = split_from [] s"

subsection \<open>External commands\<close>

text \<open>
  A command is started either by \<^verbatim>\<open>subprocess.run(argv, check=True)\<close> or by
  \<^verbatim>\<open>os.system(command)\<close>; the window keeps the list of the commands it started, oldest
  first.
\<close>

datatype invocation = Run "string list" | System string

text \<open>
  How a started process ends, as \<^verbatim>\<open>subprocess.run\<close> sees it: it exits with a status,
  the executable is not found, or the start fails with another \<^verbatim>\<open>OSError\<close> (no
  permission to execute, for one).
\<close>

datatype run_outcome = Exited int | NotFound | StartFailed

record power_menu =
  is_hyprland :: bool
  wal_colors :: json
  destroyed :: bool
  dialog_open :: bool
  invoked :: "invocation list"

text \<open>
  \<^verbatim>\<open>subprocess.run(argv, check=True)\<close>. The operating system is the function \<open>ex\<close>
  from the argument vector to the outcome (no handler starts the same command twice).
  With \<^verbatim>\<open>check=True\<close> a non-zero status raises \<^verbatim>\<open>CalledProcessError\<close>.
\<close>

definition subprocess_run ::
  "(string list \<Rightarrow> run_outcome) \<Rightarrow> string list \<Rightarrow> power_menu \<Rightarrow> (py_error + int) \<times> power_menu" where
  "subprocess_run ex argv s =
     (let s' = s\<lparr>invoked := invoked s @ [Run argv]\<rparr> in
      case ex argv of
        Exited c \<Rightarrow> (if c = 0 then (Inr c, s') else (Inl (CalledProcessError c), s'))
      | NotFound \<Rightarrow> (Inl FileNotFoundError, s')
      | StartFailed \<Rightarrow> (Inl OSError, s'))"

text \<open>\<^verbatim>\<open>os.system(command)\<close> returns the wait status and raises nothing.\<close>

definition os_system :: "(string \<Rightarrow> int) \<Rightarrow> string \<Rightarrow> power_menu \<Rightarrow> int \<times> power_menu" where
  "os_system sys command s = (sys command, s\<lparr>invoked := invoked s @ [System command]\<rparr>)"

text \<open>\<^verbatim>\<open>self.destroy()\<close>\<close>

definition destroy :: "power_menu \<Rightarrow> power_menu" where
  "destroy s = s\<lparr>destroyed := True\<rparr>"

subsection \<open>Locking\<close>

text \<open>\<^verbatim>\<open>except (subprocess.CalledProcessError, FileNotFoundError)\<close>\<close>

fun lock_caught :: "py_error \<Rightarrow> bool" where
  "lock_caught (CalledProcessError _) = True"
| "lock_caught FileNotFoundError = True"
| "lock_caught _ = False"

definition lock_commands :: "string list" where
  "lock_commands = [''loginctl lock-session'', ''dm-tool lock'', ''i3lock'', ''swaylock'']"

text \<open>
  The loop of \<^verbatim>\<open>fallback_lock\<close>: \<^verbatim>\<open>break\<close> after a command that raised nothing,
  \<^verbatim>\<open>continue\<close> after a caught exception; any other exception leaves the method.
  A method returns the exception that left it, if any, and the window's state.
\<close>

fun lock_loop ::
  "(string list \<Rightarrow> run_outcome) \<Rightarrow> string list \<Rightarrow> power_menu \<Rightarrow> py_error option \<times> power_menu" where
  "lock_loop ex [] s = (None, s)"
| "lock_loop ex (cmd # cmds) s =
     (case subprocess_run ex (py_split cmd) s of
        (Inr _, s') \<Rightarrow> (None, s')
      | (Inl e, s') \<Rightarrow> (if lock_caught e then lock_loop ex cmds s' else (Some e, s')))"

definition fallback_lock ::
  "(string list \<Rightarrow> run_outcome) \<Rightarrow> power_menu \<Rightarrow> py_error option \<times> power_menu" where
  "fallback_lock ex s = lock_loop ex lock_commands s"

definition on_lock ::
  "(string list \<Rightarrow> run_outcome) \<Rightarrow> power_menu \<Rightarrow> py_error option \<times> power_menu" where
  "on_lock ex s =
     (case (if is_hyprland s then
              (case subprocess_run ex [''hyprlock''] s of
                 (Inr _, s') \<Rightarrow> (None, s')
               | (Inl e, s') \<Rightarrow> (if lock_caught e then fallback_lock ex s' else (Some e, s')))
            else fallback_lock ex s) of
        (None, s') \<Rightarrow> (None, destroy s')
      | (Some e, s') \<Rightarrow> (Some e, s'))"

text \<open>\<^verbatim>\<open>on_cancel\<close>\<close>

definition on_cancel :: "power_menu \<Rightarrow> py_error option \<times> power_menu" where
  "on_cancel s = (None, destroy s)"

subsection \<open>The colour cache\<close>

text \<open>
  \<^verbatim>\<open>~/.cache/wal/colors.json\<close> as \<^verbatim>\<open>load_wal_colors\<close> meets it, by the outcome of the
  three library calls made on it: \<^verbatim>\<open>exists()\<close> is false; the file exists and
  \<^verbatim>\<open>open\<close> raises; it opens and \<^verbatim>\<open>json.load\<close> rejects its text; or
  \<^verbatim>\<open>json.load\<close> returns a value.
\<close>

datatype colors_file = Absent | Unreadable | Malformed | Document json

definition default_colors :: json where
  "default_colors =
     JObj [(''special'',
              JObj [(''background'', JStr ''#282a36''),
                    (''foreground'', JStr ''#f8f8f2'')]),
           (''colors'',
              JObj [(''color0'', JStr ''#21222c''),
                    (''color1'', JStr ''#ff5555''),
                    (''color2'', JStr ''#50fa7b''),
                    (''color3'', JStr ''#f1fa8c''),
                    (''color4'', JStr ''#bd93f9''),
                    (''color5'', JStr ''#ff79c6''),
                    (''color6'', JStr ''#8be9fd''),
                    (''color7'', JStr ''#f8f8f2'')])]"

definition load_wal_colors :: "colors_file \<Rightarrow> py_error + json" where
  "load_wal_colors file =
     (case file of
        Absent \<Rightarrow> Inr default_colors
      | Unreadable \<Rightarrow> Inl OSError
      | Malformed \<Rightarrow> Inl JSONDecodeError
      | Document v \<Rightarrow> Inr v)"

subsection \<open>The style sheet\<close>

text \<open>
  A replacement field \<^verbatim>\<open>{x}\<close> of an f-string: a str is inserted as it is; for any
  other value Python inserts \<^verbatim>\<open>str(x)\<close>, which is the parameter \<open>str_of\<close>.
\<close>

definition fmt :: "(json \<Rightarrow> string) \<Rightarrow> json \<Rightarrow> string" where
  "fmt str_of v = (case v of JStr x \<Rightarrow> x | _ \<Rightarrow> str_of v)"

text \<open>
  The f-string of \<^verbatim>\<open>apply_theme\<close>, line by line; every line of the source follows a
  line break, the last one being the eight blanks before the closing quotes.
\<close>

definition css_lines :: "string \<Rightarrow> string \<Rightarrow> string \<Rightarrow> string list" where
  "css_lines bg_color fg_color accent_color =
     [''        * {'',
      ''            font-family: 'Sans';'',
      ''            font-size: 14px;'',
      ''        }'',
      ''        '',
      ''        window {'',
      ''            background-color: '' @ bg_color @ '';'',
      ''            border-radius: 0px;'',
      ''            border: 2px solid '' @ accent_color @ '';'',
      ''        }'',
      ''        '',
      ''        label {'',
      ''            color: '' @ fg_color @ '';'',
      ''        }'',
      ''        '',
      ''        button {'',
      ''            background-color: shade('' @ bg_color @ '', 1.1);'',
      ''            color: '' @ fg_color @ '';'',
      ''            border-radius: 0px;'',
      ''            padding: 12px 24px;'',
      ''            margin: 0;'',
      ''            border: none;'',
      ''            transition: all 0.2s ease;'',
      ''        }'',
      ''        '',
      ''        button:hover {'',
      ''            background-color: '' @ accent_color @ '';'',
      ''            color: '' @ bg_color @ '';'',
      ''        }'',
      ''        '',
      ''        button:active {'',
      ''            background-color: shade('' @ accent_color @ '', 0.9);'',
      ''        }'',
      ''        '']"

definition css_text :: "string \<Rightarrow> string \<Rightarrow> string \<Rightarrow> string" where
  "css_text bg_color fg_color accent_color =
     concat (map (\<lambda>l. CHR 0x0A # l) (css_lines bg_color fg_color accent_color))"

text \<open>
  \<^verbatim>\<open>apply_theme\<close>: the three subscripts, then the text handed to the CSS provider.
  What the toolkit does with the text is not modelled.
\<close>

definition apply_theme :: "(json \<Rightarrow> string) \<Rightarrow> json \<Rightarrow> py_error + string" where
  "apply_theme str_of w =
     (case getitem2 w ''special'' ''background'' of Inl e \<Rightarrow> Inl e | Inr bg_color \<Rightarrow>
      case getitem2 w ''special'' ''foreground'' of Inl e \<Rightarrow> Inl e | Inr fg_color \<Rightarrow>
      case getitem2 w ''colors'' ''color4'' of Inl e \<Rightarrow> Inl e | Inr accent_color \<Rightarrow>
        Inr (css_text (fmt str_of bg_color) (fmt str_of fg_color) (fmt str_of accent_color)))"

subsection \<open>Colour conversion\<close>

text \<open>
  The digit table of \<^verbatim>\<open>int(text, base)\<close>: the decimal digits, then the letters of
  either case from 10 on; 37 for every other character.
\<close>

definition digit_value :: "char \<Rightarrow> nat" where
  "digit_value c =
     (let n = (of_char c :: nat) in
      if 48 \<le> n \<and> n \<le> 57 then n - 48
      else if 97 \<le> n \<and> n \<le> 122 then n - 87
      else if 65 \<le> n \<and> n \<le> 90 then n - 55
      else 37)"

definition int16_char :: "char \<Rightarrow> bool" where
  "int16_char c \<longleftrightarrow> digit_value c < 16 \<or> c = CHR ''_''"

text \<open>
  The digits of a literal may be grouped by single underscores: none in front, none at
  the end, no two in a row, and at least one digit.
\<close>

fun grouped :: "string \<Rightarrow> bool" where
  "grouped [] = False"
| "grouped [c] = (c \<noteq> CHR ''_'')"
| "grouped (c # d # cs) =
     (c \<noteq> CHR ''_'' \<and> (if d = CHR ''_'' then cs \<noteq> [] \<and> grouped cs else grouped (d # cs)))"

definition hex_value :: "string \<Rightarrow> int" where
  "hex_value ds = foldl (\<lambda>a c. if c = CHR ''_'' then a else 16 * a + int (digit_value c)) 0 ds"

text \<open>
  The characters \<^verbatim>\<open>int\<close> skips around the literal of an ASCII text: tab, line feed,
  vertical tab, form feed, carriage return and the blank. The separators \<^verbatim>\<open>0x1C\<close> to
  \<^verbatim>\<open>0x1F\<close>, which \<^verbatim>\<open>str.split()\<close> takes for whitespace, are not among them.
\<close>

definition int_isspace :: "char \<Rightarrow> bool" where
  "int_isspace c \<longleftrightarrow>
     c \<in> set [CHR 0x09, CHR 0x0A, CHR 0x0B, CHR 0x0C, CHR 0x0D, CHR 0x20]"

text \<open>
  \<^verbatim>\<open>int(text, 16)\<close>: blanks around the literal are skipped, a sign and the prefix
  \<^verbatim>\<open>0x\<close> (with one underscore after it) are optional, and anything else raises
  \<^verbatim>\<open>ValueError\<close>.
\<close>

definition py_int16 :: "string \<Rightarrow> py_error + int" where
  "py_int16 text =
     (let s1 = dropWhile int_isspace text;
          (sign, s2) = (case s1 of
                          c # r \<Rightarrow> (if c = CHR ''+'' then (1, r)
                                    else if c = CHR ''-'' then (- 1, r) else (1, s1))
                        | [] \<Rightarrow> (1, s1));
          s3 = (case s2 of
                  z # x # r \<Rightarrow>
                    (if z = CHR ''0'' \<and> (x = CHR ''x'' \<or> x = CHR ''X'')
                     then (case r of u # r' \<Rightarrow> (if u = CHR ''_'' then r' else r) | [] \<Rightarrow> r)
                     else s2)
                | _ \<Rightarrow> s2);
          body = takeWhile int16_char s3;
          rest = dropWhile int16_char s3
      in if grouped body \<and> list_all int_isspace rest
         then Inr (sign * hex_value body) else Inl ValueError)"

record rgba =
  red :: real
  green :: real
  blue :: real
  alpha :: real

text \<open>
  \<^verbatim>\<open>hex_to_rgba\<close>. Only a str has \<^verbatim>\<open>lstrip\<close>; a slice past the end of the text is
  shorter or empty; \<^verbatim>\<open>/\<close> is the true division, modelled by the quotient of reals.
\<close>

definition hex_to_rgba :: "json \<Rightarrow> py_error + rgba" where
  "hex_to_rgba hex_color =
     (case hex_color of
        JStr text \<Rightarrow>
          (let h = dropWhile (\<lambda>c. c = CHR ''#'') text in
           case py_int16 (take 2 h) of Inl e \<Rightarrow> Inl e | Inr r \<Rightarrow>
           case py_int16 (take 2 (drop 2 h)) of Inl e \<Rightarrow> Inl e | Inr g \<Rightarrow>
           case py_int16 (take 2 (drop 4 h)) of Inl e \<Rightarrow> Inl e | Inr b \<Rightarrow>
             Inr \<lparr>red = real_of_int r / 255, green = real_of_int g / 255,
                  blue = real_of_int b / 255, alpha = 1\<rparr>)
      | _ \<Rightarrow> Inl AttributeError)"

subsection \<open>Reboot and shutdown\<close>

text \<open>How \<^verbatim>\<open>dialog.run()\<close> ends.\<close>

datatype response = ResponseYes | ResponseNo | ResponseDeleteEvent | ResponseNone

text \<open>
  The loop over the labels of the message area, one colour conversion for each;
  the first exception leaves the method.
\<close>

fun override_labels :: "string list \<Rightarrow> json \<Rightarrow> py_error option" where
  "override_labels [] fg_color = None"
| "override_labels (label # labels) fg_color =
     (case hex_to_rgba fg_color of Inl e \<Rightarrow> Some e | Inr _ \<Rightarrow> override_labels labels fg_color)"

text \<open>
  \<^verbatim>\<open>confirm_action\<close>. The message area of the dialog holds two labels, one for the
  action and one for the message. \<open>sys\<close> gives the status \<^verbatim>\<open>os.system\<close> returns and
  \<open>resp\<close> is the answer the dialog ends with.
\<close>

definition confirm_action ::
  "(string \<Rightarrow> int) \<Rightarrow> response \<Rightarrow> string \<Rightarrow> string \<Rightarrow> string \<Rightarrow> power_menu
     \<Rightarrow> py_error option \<times> power_menu" where
  "confirm_action sys resp action message command s =
     (let s1 = s\<lparr>dialog_open := True\<rparr> in
      case getitem2 (wal_colors s1) ''special'' ''background'' of Inl e \<Rightarrow> (Some e, s1)
      | Inr bg_color \<Rightarrow>
      case getitem2 (wal_colors s1) ''special'' ''foreground'' of Inl e \<Rightarrow> (Some e, s1)
      | Inr fg_color \<Rightarrow>
      case hex_to_rgba bg_color of Inl e \<Rightarrow> (Some e, s1)
      | Inr _ \<Rightarrow>
      case override_labels [action, message] fg_color of Some e \<Rightarrow> (Some e, s1)
      | None \<Rightarrow>
        (let s2 = (if resp = ResponseYes
                   then destroy (snd (os_system sys command s1)) else s1)
         in (None, s2\<lparr>dialog_open := False\<rparr>)))"

definition on_shutdown ::
  "(string \<Rightarrow> int) \<Rightarrow> response \<Rightarrow> power_menu \<Rightarrow> py_error option \<times> power_menu" where
  "on_shutdown sys resp s =
     confirm_action sys resp ''Shutdown'' ''Power off the system?'' ''systemctl poweroff'' s"

definition on_reboot ::
  "(string \<Rightarrow> int) \<Rightarrow> response \<Rightarrow> power_menu \<Rightarrow> py_error option \<times> power_menu" where
  "on_reboot sys resp s =
     confirm_action sys resp ''Reboot'' ''Restart the system?'' ''systemctl reboot'' s"

subsection \<open>Construction\<close>

text \<open>\<^verbatim>\<open>"HYPRLAND_INSTANCE_SIGNATURE" in os.environ\<close>\<close>

definition hyprland_detected :: "(string \<rightharpoonup> string) \<Rightarrow> bool" where
  "hyprland_detected env \<longleftrightarrow> env ''HYPRLAND_INSTANCE_SIGNATURE'' \<noteq> None"

text \<open>
  \<^verbatim>\<open>__init__\<close>: an exception of the loader or of \<^verbatim>\<open>apply_theme\<close> leaves the
  constructor, and no window comes to exist.
\<close>

definition init ::
  "(string \<rightharpoonup> string) \<Rightarrow> colors_file \<Rightarrow> (json \<Rightarrow> string) \<Rightarrow> py_error + power_menu" where
  "init env file str_of =
     (case load_wal_colors file of Inl e \<Rightarrow> Inl e | Inr w \<Rightarrow>
      case apply_theme str_of w of Inl e \<Rightarrow> Inl e | Inr css \<Rightarrow>
        Inr \<lparr>is_hyprland = hyprland_detected env, wal_colors = w, destroyed = False,
             dialog_open = False, invoked = []\<rparr>)"

subsection \<open>Vocabulary of the statements about locking\<close>

text \<open>
  The commands \<^verbatim>\<open>on_lock\<close> can start, in the order of the source text: the
  compositor's locker when the window runs under Hyprland, then the four of
  \<^const>\<open>lock_commands\<close>, each as the argument vector it is started with.
\<close>

definition lock_chain :: "bool \<Rightarrow> string list list" where
  "lock_chain hypr = (if hypr then [[''hyprlock'']] else []) @ map py_split lock_commands"

text \<open>A command fails when it exits with a non-zero status or its executable is not found.\<close>

fun lock_fails :: "run_outcome \<Rightarrow> bool" where
  "lock_fails (Exited c) = (c \<noteq> 0)"
| "lock_fails NotFound = True"
| "lock_fails StartFailed = False"

subsection \<open>Vocabulary of the statements about colours\<close>

text \<open>
  A valid colour is \<^verbatim>\<open>#\<close> followed by exactly six hexadecimal digits. The byte two
  digits denote is sixteen times the first digit plus the second.
\<close>

definition hex_digit :: "char \<Rightarrow> bool" where
  "hex_digit c \<longleftrightarrow> c \<in> set ''0123456789abcdefABCDEF''"

definition valid_color :: "string \<Rightarrow> bool" where
  "valid_color text =
     (case text of [] \<Rightarrow> False
      | h # ds \<Rightarrow> h = CHR ''#'' \<and> length ds = 6 \<and> list_all hex_digit ds)"

definition hex_byte :: "char \<Rightarrow> char \<Rightarrow> nat" where
  "hex_byte a b = 16 * digit_value a + digit_value b"

text \<open>
  The palette of a colour document: the three colours the window uses, when the
  document has them and they are strings.
\<close>

record palette =
  background :: string
  foreground :: string
  accent :: string

definition palette_of :: "json \<Rightarrow> palette option" where
  "palette_of w =
     (case (getitem2 w ''special'' ''background'', getitem2 w ''special'' ''foreground'',
            getitem2 w ''colors'' ''color4'') of
        (Inr (JStr b), Inr (JStr f), Inr (JStr a)) \<Rightarrow>
          Some \<lparr>background = b, foreground = f, accent = a\<rparr>
      | _ \<Rightarrow> None)"

definition valid_palette :: "palette \<Rightarrow> bool" where
  "valid_palette P \<longleftrightarrow>
     valid_color (background P) \<and> valid_color (foreground P) \<and> valid_color (accent P)"

subsection \<open>Reading a style sheet\<close>

text \<open>
  What a style sheet sets is read off its text: the text is cut at every \<^verbatim>\<open>}\<close> into
  rules, a rule at its \<^verbatim>\<open>{\<close> into the selector and the body, the body at every
  \<^verbatim>\<open>;\<close> into declarations, a declaration at its first \<^verbatim>\<open>:\<close> into the property and
  the value; blanks around each part are dropped. Of two declarations of a property
  under one selector the later one counts.
\<close>

definition css_blank :: "char \<Rightarrow> bool" where
  "css_blank c \<longleftrightarrow> c \<in> set [CHR 0x20, CHR 0x0A, CHR 0x09, CHR 0x0D, CHR 0x0C]"

definition trim :: "string \<Rightarrow> string" where
  "trim s = rev (dropWhile css_blank (rev (dropWhile css_blank s)))"

fun fields :: "char \<Rightarrow> string \<Rightarrow> string list" where
  "fields sep [] = [[]]"
| "fields sep (c # cs) =
     (if c = sep then [] # fields sep cs
      else (case fields sep cs of f # fs \<Rightarrow> (c # f) # fs | [] \<Rightarrow> [[c]]))"

definition css_declaration :: "string \<Rightarrow> string \<times> string" where
  "css_declaration d =
     (trim (takeWhile (\<lambda>c. c \<noteq> CHR '':'') d),
      trim (drop 1 (dropWhile (\<lambda>c. c \<noteq> CHR '':'') d)))"

definition css_declarations :: "string \<Rightarrow> (string \<times> string) list" where
  "css_declarations body =
     map css_declaration (filter (\<lambda>d. \<not> list_all css_blank d) (fields (CHR '';'') body))"

definition css_rule :: "string \<Rightarrow> string \<times> (string \<times> string) list" where
  "css_rule chunk =
     (trim (takeWhile (\<lambda>c. c \<noteq> CHR ''{'') chunk),
      css_declarations (drop 1 (dropWhile (\<lambda>c. c \<noteq> CHR ''{'') chunk)))"

definition css_rules :: "string \<Rightarrow> (string \<times> (string \<times> string) list) list" where
  "css_rules text =
     map css_rule (filter (\<lambda>c. \<not> list_all css_blank c) (fields (CHR ''}'') text))"

definition css_value :: "string \<Rightarrow> string \<Rightarrow> string \<Rightarrow> string option" where
  "css_value text sel prop =
     map_of (rev (concat (map (\<lambda>(s, ds). map (\<lambda>(p, v). ((s, p), v)) ds) (css_rules text))))
       (sel, prop)"

subsection \<open>The layout of the style sheet\<close>

text \<open>
  The f-string of \<^verbatim>\<open>apply_theme\<close> lays every rule out in the same way: the selector
  and \<^verbatim>\<open>{\<close> on a line indented by eight blanks, each declaration on a line indented
  by twelve, \<^verbatim>\<open>}\<close> on a line indented by eight, then a line of eight blanks. The proofs
  use this to read the sheet rule by rule.
\<close>

definition decl_line :: "string \<times> string \<Rightarrow> string" where
  "decl_line d = ''            '' @ fst d @ '': '' @ snd d @ '';''"

definition rule_lines :: "string \<times> (string \<times> string) list \<Rightarrow> string list" where
  "rule_lines r =
     [''        '' @ fst r @ '' {''] @ map decl_line (snd r) @ [''        }'', ''        '']"

definition decls_text :: "(string \<times> string) list \<Rightarrow> string" where
  "decls_text ds = concat (map (\<lambda>d. CHR 0x0A # decl_line d) ds)"

definition rule_text :: "string \<times> (string \<times> string) list \<Rightarrow> string" where
  "rule_text r = concat (map (\<lambda>l. CHR 0x0A # l) (rule_lines r))"

definition theme_rules ::
  "string \<Rightarrow> string \<Rightarrow> string \<Rightarrow> (string \<times> (string \<times> string) list) list" where
  "theme_rules bg fg ac =
     [(''*'', [(''font-family'', [CHR 0x27, CHR ''S'', CHR ''a'', CHR ''n'', CHR ''s'', CHR 0x27]),
               (''font-size'', ''14px'')]),
      (''window'', [(''background-color'', bg), (''border-radius'', ''0px''),
                    (''border'', ''2px solid '' @ ac)]),
      (''label'', [(''color'', fg)]),
      (''button'', [(''background-color'', ''shade('' @ bg @ '', 1.1)''), (''color'', fg),
                    (''border-radius'', ''0px''), (''padding'', ''12px 24px''),
                    (''margin'', ''0''), (''border'', ''none''),
                    (''transition'', ''all 0.2s ease'')]),
      (''button:hover'', [(''background-color'', ac), (''color'', bg)]),
      (''button:active'', [(''background-color'', ''shade('' @ ac @ '', 0.9)'')])]"

text \<open>
  A part that reads back as it was written: not empty, no blank at either end, none of
  the given characters inside.
\<close>

definition css_word :: "char list \<Rightarrow> string \<Rightarrow> bool" where
  "css_word stops s \<longleftrightarrow>
     s \<noteq> [] \<and> \<not> css_blank (hd s) \<and> \<not> css_blank (last s) \<and> (\<forall>c\<in>set stops. c \<notin> set s)"

definition plain_decl :: "string \<times> string \<Rightarrow> bool" where
  "plain_decl d \<longleftrightarrow> css_word ''{}:;'' (fst d) \<and> css_word ''{};'' (snd d)"

definition plain_rule :: "string \<times> (string \<times> string) list \<Rightarrow> bool" where
  "plain_rule r \<longleftrightarrow> css_word ''{}'' (fst r) \<and> list_all plain_decl (snd r)"

subsection \<open>Example windows and environments\<close>

text \<open>A freshly built window with the built-in palette, under Hyprland or not.\<close>

definition menu0 :: "bool \<Rightarrow> power_menu" where
  "menu0 hypr = \<lparr>is_hyprland = hypr, wal_colors = default_colors, destroyed = False,
                 dialog_open = False, invoked = []\<rparr>"

text \<open>
  A system where only \<^verbatim>\<open>i3lock\<close> locks, \<^verbatim>\<open>dm-tool\<close> is not installed and every other
  command exits with status 1; and one where no command locks.
\<close>

definition ex_i3lock :: "string list \<Rightarrow> run_outcome" where
  "ex_i3lock argv =
     (if argv = [''i3lock''] then Exited 0
      else if argv = [''dm-tool'', ''lock''] then NotFound else Exited 1)"

definition ex_none :: "string list \<Rightarrow> run_outcome" where
  "ex_none argv = (if argv = [''swaylock''] then Exited 2 else NotFound)"

text \<open>
  An environment of a Hyprland session, one of another session, and a stand-in for
  \<^verbatim>\<open>str\<close>.
\<close>

definition env_hyprland :: "string \<rightharpoonup> string" where
  "env_hyprland = [''HYPRLAND_INSTANCE_SIGNATURE'' \<mapsto> ''1'', ''HOME'' \<mapsto> ''/home/u'']"

definition env_other :: "string \<rightharpoonup> string" where
  "env_other = [''XDG_SESSION_TYPE'' \<mapsto> ''x11'', ''HOME'' \<mapsto> ''/home/u'']"

definition str_none :: "json \<Rightarrow> string" where
  "str_none v = ''None''"

text \<open>
  The cache file of the scenario in the specification, a cache file that lacks keys, and
  the palette of the built-in colours.
\<close>

definition scenario_colors :: json where
  "scenario_colors =
     JObj [(''special'', JObj [(''background'', JStr ''#000000''),
                               (''foreground'', JStr ''#ffffff'')]),
           (''colors'', JObj [(''color4'', JStr ''#ff00ff'')])]"

definition partial_colors :: json where
  "partial_colors = JObj [(''special'', JObj [(''background'', JStr ''#000000'')])]"

definition default_palette :: palette where
  "default_palette =
     \<lparr>background = ''#282a36'', foreground = ''#f8f8f2'', accent = ''#bd93f9''\<rparr>"

text \<open>Two systems: one where every command succeeds, one where every command fails.\<close>

definition sys_ok :: "string \<Rightarrow> int" where
  "sys_ok command = 0"

definition sys_fail :: "string \<Rightarrow> int" where
  "sys_fail command = 256"


section \<open>Properties\<close>

subsection \<open>The lock chain\<close>

lemma py_split_lock_commands:
  "map py_split lock_commands =
     [[''loginctl'', ''lock-session''], [''dm-tool'', ''lock''], [''i3lock''], [''swaylock'']]"
  by (simp add: lock_commands_def py_split_def py_isspace_def)

lemma lock_chain_explicit:
  "lock_chain hypr =
     (if hypr then [[''hyprlock'']] else []) @
     [[''loginctl'', ''lock-session''], [''dm-tool'', ''lock''], [''i3lock''], [''swaylock'']]"
  by (simp add: lock_chain_def py_split_lock_commands)

lemma run_take_split:
  "map (\<lambda>c. Run (py_split c)) (take k cmds) = map Run (take k (map py_split cmds))"
  by (simp add: take_map)

text \<open>
  The loop stops at the first command that exits with status 0, having started the
  commands before it and no command after it.
\<close>

lemma lock_loop_first_success:
  assumes "n < length cmds"
    and "\<forall>i<n. lock_fails (ex (py_split (cmds ! i)))"
    and "ex (py_split (cmds ! n)) = Exited 0"
  shows "lock_loop ex cmds s =
           (None, s\<lparr>invoked := invoked s @ map (\<lambda>c. Run (py_split c)) (take (Suc n) cmds)\<rparr>)"
  using assms
proof (induction cmds arbitrary: n s)
  case Nil
  then show ?case by simp
next
  case (Cons cmd cmds)
  show ?case
  proof (cases n)
    case 0
    with Cons.prems show ?thesis by (simp add: subprocess_run_def)
  next
    case (Suc m)
    from Cons.prems Suc have fail: "lock_fails (ex (py_split cmd))" by auto
    from Cons.prems Suc have m: "m < length cmds" by simp
    from Cons.prems Suc have fs: "\<forall>i<m. lock_fails (ex (py_split (cmds ! i)))" by auto
    from Cons.prems Suc have ok: "ex (py_split (cmds ! m)) = Exited 0" by simp
    note IH = Cons.IH [OF m fs ok]
    from fail show ?thesis
      by (cases "ex (py_split cmd)") (simp_all add: subprocess_run_def IH Suc)
  qed
qed

lemma lock_loop_all_fail:
  assumes "\<forall>c\<in>set cmds. lock_fails (ex (py_split c))"
  shows "lock_loop ex cmds s =
           (None, s\<lparr>invoked := invoked s @ map (\<lambda>c. Run (py_split c)) cmds\<rparr>)"
  using assms
proof (induction cmds arbitrary: s)
  case Nil
  then show ?case by simp
next
  case (Cons cmd cmds)
  then have fail: "lock_fails (ex (py_split cmd))" by simp
  from Cons have IH: "\<And>s. lock_loop ex cmds s =
     (None, s\<lparr>invoked := invoked s @ map (\<lambda>c. Run (py_split c)) cmds\<rparr>)" by simp
  from fail show ?case
    by (cases "ex (py_split cmd)") (simp_all add: subprocess_run_def IH)
qed

lemma on_lock_invoked_snd:
  "invoked (snd (on_lock ex s)) =
     invoked (snd (if is_hyprland s then
              (case subprocess_run ex [''hyprlock''] s of
                 (Inr _, s') \<Rightarrow> (None, s')
               | (Inl e, s') \<Rightarrow> (if lock_caught e then fallback_lock ex s' else (Some e, s')))
            else fallback_lock ex s))"
  by (simp add: on_lock_def destroy_def split: prod.splits option.splits)

lemma init_flag: "init env file str_of = Inr s0 \<Longrightarrow> is_hyprland s0 = hyprland_detected env"
  by (auto simp: init_def split: sum.splits)

lemma on_lock_first_success:
  assumes "n < length (lock_chain (is_hyprland s))"
    and "\<forall>i<n. lock_fails (ex (lock_chain (is_hyprland s) ! i))"
    and "ex (lock_chain (is_hyprland s) ! n) = Exited 0"
  shows "on_lock ex s =
           (None, s\<lparr>invoked := invoked s @ map Run (take (Suc n) (lock_chain (is_hyprland s))),
                     destroyed := True\<rparr>)"
proof (cases "is_hyprland s")
  case False
  have n: "n < length lock_commands"
    using assms(1) False by (simp add: lock_chain_def)
  have fs: "\<forall>i<n. lock_fails (ex (py_split (lock_commands ! i)))"
    using assms(2) n False by (simp add: lock_chain_def)
  have ok: "ex (py_split (lock_commands ! n)) = Exited 0"
    using assms(3) n False by (simp add: lock_chain_def)
  show ?thesis
    using False lock_loop_first_success [OF n fs ok, of s]
    by (simp add: on_lock_def fallback_lock_def destroy_def lock_chain_def run_take_split)
next
  case True
  show ?thesis
  proof (cases n)
    case 0
    with assms(3) True show ?thesis
      by (simp add: on_lock_def subprocess_run_def destroy_def lock_chain_def)
  next
    case (Suc m)
    have fail: "lock_fails (ex [''hyprlock''])"
      using assms(2) True Suc by (auto simp: lock_chain_def)
    have m: "m < length lock_commands"
      using assms(1) True Suc by (simp add: lock_chain_def)
    have fs: "\<forall>i<m. lock_fails (ex (py_split (lock_commands ! i)))"
    proof (intro allI impI)
      fix i assume "i < m"
      then have "Suc i < n" using Suc by simp
      with assms(2) have "lock_fails (ex (lock_chain (is_hyprland s) ! Suc i))" by blast
      with True m \<open>i < m\<close> show "lock_fails (ex (py_split (lock_commands ! i)))"
        by (simp add: lock_chain_def)
    qed
    have ok: "ex (py_split (lock_commands ! m)) = Exited 0"
      using assms(3) True Suc m by (simp add: lock_chain_def)
    note L = lock_loop_first_success [OF m fs ok]
    from fail show ?thesis
      by (cases "ex [''hyprlock'']")
         (simp_all add: on_lock_def subprocess_run_def fallback_lock_def destroy_def L True Suc
            lock_chain_def run_take_split)
  qed
qed

text \<open>
  Claim C1. The Lock handler tries the commands in the fixed order: \<^verbatim>\<open>hyprlock\<close> first
  when the window runs under Hyprland, then \<^verbatim>\<open>loginctl lock-session\<close>,
  \<^verbatim>\<open>dm-tool lock\<close>, \<^verbatim>\<open>i3lock\<close>, \<^verbatim>\<open>swaylock\<close>. If the first \<open>n\<close> commands of that
  chain fail (non-zero exit or executable not found) and the next one exits with status
  0, the handler starts exactly these \<open>n + 1\<close> commands, in order, starts no later
  command, raises nothing and destroys the window.
\<close>

theorem lock_stops_at_first_success:
  assumes "n < length (lock_chain (is_hyprland s))"
    and "\<forall>i<n. lock_fails (ex (lock_chain (is_hyprland s) ! i))"
    and "ex (lock_chain (is_hyprland s) ! n) = Exited 0"
  shows "lock_chain (is_hyprland s) =
           (if is_hyprland s then [[''hyprlock'']] else []) @
           [[''loginctl'', ''lock-session''], [''dm-tool'', ''lock''], [''i3lock''], [''swaylock'']]
         \<and> on_lock ex s =
           (None, s\<lparr>invoked := invoked s @ map Run (take (Suc n) (lock_chain (is_hyprland s))),
                     destroyed := True\<rparr>)"
  using on_lock_first_success [OF assms] lock_chain_explicit [of "is_hyprland s"] by blast

theorem lock_stops_at_first_success_witness:
  "3 < length (lock_chain (is_hyprland (menu0 True)))
   \<and> lock_fails (ex_i3lock (lock_chain (is_hyprland (menu0 True)) ! 0))
   \<and> lock_fails (ex_i3lock (lock_chain (is_hyprland (menu0 True)) ! 1))
   \<and> lock_fails (ex_i3lock (lock_chain (is_hyprland (menu0 True)) ! 2))
   \<and> ex_i3lock (lock_chain (is_hyprland (menu0 True)) ! 3) = Exited 0
   \<and> on_lock ex_i3lock (menu0 True) =
       (None, (menu0 True)\<lparr>invoked := [Run [''hyprlock''], Run [''loginctl'', ''lock-session''],
                  Run [''dm-tool'', ''lock''], Run [''i3lock'']], destroyed := True\<rparr>)"
proof -
  have flag: "is_hyprland (menu0 True) = True" by (simp add: menu0_def)
  have h1: "3 < length (lock_chain (is_hyprland (menu0 True)))"
    by (simp add: flag lock_chain_explicit)
  have h2: "\<forall>i<3. lock_fails (ex_i3lock (lock_chain (is_hyprland (menu0 True)) ! i))"
    by (auto simp: flag lock_chain_explicit ex_i3lock_def numeral_3_eq_3 less_Suc_eq)
  have h3: "ex_i3lock (lock_chain (is_hyprland (menu0 True)) ! 3) = Exited 0"
    by (simp add: flag lock_chain_explicit ex_i3lock_def)
  have inv: "invoked (menu0 True) = []" by (simp add: menu0_def)
  from lock_stops_at_first_success [OF h1 h2 h3]
  have "on_lock ex_i3lock (menu0 True) =
       (None, (menu0 True)\<lparr>invoked := invoked (menu0 True) @
          map Run (take (Suc 3) (lock_chain (is_hyprland (menu0 True)))), destroyed := True\<rparr>)"
    by blast
  then have "on_lock ex_i3lock (menu0 True) =
       (None, (menu0 True)\<lparr>invoked := [Run [''hyprlock''], Run [''loginctl'', ''lock-session''],
                  Run [''dm-tool'', ''lock''], Run [''i3lock'']], destroyed := True\<rparr>)"
    by (simp add: flag inv lock_chain_explicit)
  with h1 h2 h3 show ?thesis by simp
qed

text \<open>
  Claim C3. If every command of the chain fails (non-zero exit or executable not found),
  the Lock handler has started the whole chain, raises no exception and destroys the
  window; nothing else of the window changes, in particular no dialog is opened.
\<close>

theorem lock_all_fail_closes:
  assumes "\<forall>c\<in>set (lock_chain (is_hyprland s)). lock_fails (ex c)"
  shows "on_lock ex s =
           (None, s\<lparr>invoked := invoked s @ map Run (lock_chain (is_hyprland s)),
                     destroyed := True\<rparr>)"
proof -
  have fs: "\<forall>c\<in>set lock_commands. lock_fails (ex (py_split c))"
    using assms by (simp add: lock_chain_def)
  note L = lock_loop_all_fail [OF fs]
  show ?thesis
  proof (cases "is_hyprland s")
    case False
    then show ?thesis
      by (simp add: on_lock_def fallback_lock_def destroy_def L lock_chain_def)
  next
    case True
    with assms have fail: "lock_fails (ex [''hyprlock''])" by (simp add: lock_chain_def)
    from fail show ?thesis
      by (cases "ex [''hyprlock'']")
         (simp_all add: on_lock_def subprocess_run_def fallback_lock_def destroy_def L True
            lock_chain_def)
  qed
qed

theorem lock_all_fail_closes_witness:
  "list_all (\<lambda>c. lock_fails (ex_none c)) (lock_chain (is_hyprland (menu0 False)))
   \<and> on_lock ex_none (menu0 False) =
       (None, (menu0 False)\<lparr>invoked := [Run [''loginctl'', ''lock-session''],
                  Run [''dm-tool'', ''lock''], Run [''i3lock''], Run [''swaylock'']],
                destroyed := True\<rparr>)"
proof -
  have flag: "is_hyprland (menu0 False) = False" by (simp add: menu0_def)
  have inv: "invoked (menu0 False) = []" by (simp add: menu0_def)
  have h: "\<forall>c\<in>set (lock_chain (is_hyprland (menu0 False))). lock_fails (ex_none c)"
    by (simp add: flag lock_chain_explicit ex_none_def)
  from lock_all_fail_closes [OF h] h show ?thesis
    by (simp add: flag inv lock_chain_explicit)
qed

text \<open>
  Claim C5. In every state of the window, Cancel destroys the window, raises nothing and
  starts no external command: the state changes in the field \<^const>\<open>destroyed\<close> only.
\<close>

theorem cancel_closes_without_commands:
  "fst (on_cancel s) = None \<and> destroyed (snd (on_cancel s))
     \<and> invoked (snd (on_cancel s)) = invoked s
     \<and> snd (on_cancel s) = s\<lparr>destroyed := True\<rparr>"
  by (simp add: on_cancel_def destroy_def)

text \<open>
  Whatever the commands do, the loop starts a prefix of its list, and at least its first
  command: every command before the last one started has failed, and the loop goes on to
  the end of the list unless the last command started did not fail.
\<close>

lemma lock_loop_prefix:
  assumes "cmds \<noteq> []"
  shows "\<exists>k. 1 \<le> k \<and> k \<le> length cmds
           \<and> invoked (snd (lock_loop ex cmds s)) = invoked s @ map Run (take k (map py_split cmds))
           \<and> (\<forall>i<k - 1. lock_fails (ex (map py_split cmds ! i)))
           \<and> (k < length cmds \<longrightarrow> \<not> lock_fails (ex (map py_split cmds ! (k - 1))))"
  using assms
proof (induction cmds arbitrary: s)
  case Nil
  then show ?case by simp
next
  case (Cons cmd cmds)
  let ?s1 = "s\<lparr>invoked := invoked s @ [Run (py_split cmd)]\<rparr>"
  show ?case
  proof (cases "lock_fails (ex (py_split cmd))")
    case False
    then have "invoked (snd (lock_loop ex (cmd # cmds) s)) = invoked s @ [Run (py_split cmd)]"
      by (cases "ex (py_split cmd)") (simp_all add: subprocess_run_def)
    with False show ?thesis
      by (intro exI [of _ 1]) simp
  next
    case True
    then have step: "lock_loop ex (cmd # cmds) s = lock_loop ex cmds ?s1"
      by (cases "ex (py_split cmd)") (simp_all add: subprocess_run_def)
    show ?thesis
    proof (cases "cmds = []")
      case e: True
      with step show ?thesis
        by (intro exI [of _ 1]) simp
    next
      case ne: False
      from Cons.IH [OF ne, of ?s1] obtain k where
        k: "1 \<le> k" "k \<le> length cmds"
          "invoked (snd (lock_loop ex cmds ?s1)) = invoked ?s1 @ map Run (take k (map py_split cmds))"
          "\<forall>i<k - 1. lock_fails (ex (map py_split cmds ! i))"
          "k < length cmds \<longrightarrow> \<not> lock_fails (ex (map py_split cmds ! (k - 1)))"
        by blast
      have before: "\<forall>i<Suc k - 1. lock_fails (ex (map py_split (cmd # cmds) ! i))"
      proof (intro allI impI)
        fix i assume i: "i < Suc k - 1"
        show "lock_fails (ex (map py_split (cmd # cmds) ! i))"
        proof (cases i)
          case 0
          with True show ?thesis by simp
        next
          case (Suc j)
          with i have "j < k - 1" by simp
          with k(4) Suc show ?thesis by simp
        qed
      qed
      have last: "Suc k < length (cmd # cmds)
          \<longrightarrow> \<not> lock_fails (ex (map py_split (cmd # cmds) ! (Suc k - 1)))"
      proof
        assume "Suc k < length (cmd # cmds)"
        then have "k < length cmds" by simp
        with k(5) have "\<not> lock_fails (ex (map py_split cmds ! (k - 1)))" by simp
        moreover from k(1) obtain j where "k = Suc j" by (cases k) simp_all
        ultimately show "\<not> lock_fails (ex (map py_split (cmd # cmds) ! (Suc k - 1)))" by simp
      qed
      from k(1,2,3) step before last show ?thesis
        by (intro exI [of _ "Suc k"]) simp
    qed
  qed
qed

text \<open>The Lock handler is the loop over the chain of the session.\<close>

lemma on_lock_as_loop:
  "invoked (snd (on_lock ex s)) =
     invoked (snd (lock_loop ex ((if is_hyprland s then [''hyprlock''] else []) @ lock_commands) s))"
  unfolding on_lock_invoked_snd fallback_lock_def
  by (simp add: py_split_def py_isspace_def)

lemma lock_chain_as_split:
  "map py_split ((if hypr then [''hyprlock''] else []) @ lock_commands) = lock_chain hypr"
  by (simp add: lock_chain_def py_split_def py_isspace_def)

text \<open>
  Claim C8. For a window built in the environment \<open>env\<close>, in any state \<open>s\<close> that
  still has the flag set at construction, the presence of
  \<^verbatim>\<open>HYPRLAND_INSTANCE_SIGNATURE\<close> in the environment selects the chain the Lock
  handler runs: \<^verbatim>\<open>hyprlock\<close> followed by the four fallback commands when the variable
  is present, the four fallback commands alone, \<^verbatim>\<open>hyprlock\<close> not among them, when it
  is absent. Whatever the commands do, the handler starts the first \<open>k\<close> commands of
  that chain, in order, for some \<open>k\<close> that is at least 1: so \<^verbatim>\<open>hyprlock\<close> is started
  first when the variable is present, and the fallback chain runs from its first command
  and \<^verbatim>\<open>hyprlock\<close> is never started when it is absent. Every command before the last
  one started has failed, and the handler stops before the end of the chain only at a
  command that did not fail.
\<close>

theorem compositor_variable_selects_lock_path:
  assumes "init env file str_of = Inr s0"
    and "is_hyprland s = is_hyprland s0"
  shows "lock_chain True = [''hyprlock''] # lock_chain False
     \<and> lock_chain False =
         [[''loginctl'', ''lock-session''], [''dm-tool'', ''lock''], [''i3lock''], [''swaylock'']]
     \<and> (\<exists>k. 1 \<le> k \<and> k \<le> length (lock_chain (env ''HYPRLAND_INSTANCE_SIGNATURE'' \<noteq> None))
           \<and> invoked (snd (on_lock ex s)) =
               invoked s @ map Run (take k (lock_chain (env ''HYPRLAND_INSTANCE_SIGNATURE'' \<noteq> None)))
           \<and> (\<forall>i<k - 1. lock_fails (ex (lock_chain (env ''HYPRLAND_INSTANCE_SIGNATURE'' \<noteq> None) ! i)))
           \<and> (k < length (lock_chain (env ''HYPRLAND_INSTANCE_SIGNATURE'' \<noteq> None))
                \<longrightarrow> \<not> lock_fails (ex (lock_chain (env ''HYPRLAND_INSTANCE_SIGNATURE'' \<noteq> None) ! (k - 1)))))"
proof -
  have flag: "is_hyprland s = (env ''HYPRLAND_INSTANCE_SIGNATURE'' \<noteq> None)"
    using init_flag [OF assms(1)] assms(2) by (simp add: hyprland_detected_def)
  let ?cmds = "(if is_hyprland s then [''hyprlock''] else []) @ lock_commands"
  have ne: "?cmds \<noteq> []" by (simp add: lock_commands_def)
  have len: "length ?cmds = length (lock_chain (is_hyprland s))"
    by (simp add: lock_chain_def)
  from lock_loop_prefix [OF ne, of ex s]
  have "\<exists>k. 1 \<le> k \<and> k \<le> length (lock_chain (is_hyprland s))
           \<and> invoked (snd (on_lock ex s)) =
               invoked s @ map Run (take k (lock_chain (is_hyprland s)))
           \<and> (\<forall>i<k - 1. lock_fails (ex (lock_chain (is_hyprland s) ! i)))
           \<and> (k < length (lock_chain (is_hyprland s))
                \<longrightarrow> \<not> lock_fails (ex (lock_chain (is_hyprland s) ! (k - 1))))"
    unfolding on_lock_as_loop lock_chain_as_split len .
  then show ?thesis
    unfolding flag by (simp add: lock_chain_explicit)
qed

theorem compositor_variable_selects_lock_path_witness:
  "init env_hyprland Absent str_none = Inr (menu0 True)
   \<and> invoked (snd (on_lock ex_i3lock (menu0 True))) =
       [Run [''hyprlock''], Run [''loginctl'', ''lock-session''], Run [''dm-tool'', ''lock''],
        Run [''i3lock'']]
   \<and> init env_other Absent str_none = Inr (menu0 False)
   \<and> invoked (snd (on_lock ex_i3lock (menu0 False))) =
       [Run [''loginctl'', ''lock-session''], Run [''dm-tool'', ''lock''], Run [''i3lock'']]"
proof -
  have h: "init env_hyprland Absent str_none = Inr (menu0 True)"
    by (simp add: init_def load_wal_colors_def apply_theme_def getitem2_def getitem_def
        default_colors_def menu0_def hyprland_detected_def env_hyprland_def)
  have o: "init env_other Absent str_none = Inr (menu0 False)"
    by (simp add: init_def load_wal_colors_def apply_theme_def getitem2_def getitem_def
        default_colors_def menu0_def hyprland_detected_def env_other_def)
  have e: "env_hyprland ''HYPRLAND_INSTANCE_SIGNATURE'' \<noteq> None"
    "env_other ''HYPRLAND_INSTANCE_SIGNATURE'' = None"
    by (simp_all add: env_hyprland_def env_other_def)
  have inv: "invoked (menu0 hypr) = []" for hypr by (simp add: menu0_def)
  let ?c5 = "[[''hyprlock''], [''loginctl'', ''lock-session''], [''dm-tool'', ''lock''],
              [''i3lock''], [''swaylock'']]"
  let ?c4 = "[[''loginctl'', ''lock-session''], [''dm-tool'', ''lock''], [''i3lock''],
              [''swaylock'']]"
  from compositor_variable_selects_lock_path [OF h refl, of ex_i3lock]
  obtain k where k: "1 \<le> k" "k \<le> 5"
      "invoked (snd (on_lock ex_i3lock (menu0 True))) = map Run (take k ?c5)"
      "\<forall>i<k - 1. lock_fails (ex_i3lock (?c5 ! i))"
      "k < 5 \<longrightarrow> \<not> lock_fails (ex_i3lock (?c5 ! (k - 1)))"
    by (auto simp: e inv lock_chain_explicit)
  from k(1,2) have "k = 1 \<or> k = 2 \<or> k = 3 \<or> k = 4 \<or> k = 5" by arith
  moreover have "k = 5 \<Longrightarrow> lock_fails (ex_i3lock (?c5 ! 3))"
    using k(4) [rule_format, of 3] by simp
  ultimately have "k = 4"
    using k(5) by (auto simp: ex_i3lock_def)
  with k(3) have a: "invoked (snd (on_lock ex_i3lock (menu0 True))) =
       [Run [''hyprlock''], Run [''loginctl'', ''lock-session''], Run [''dm-tool'', ''lock''],
        Run [''i3lock'']]"
    by (simp add: numeral_eq_Suc)
  from compositor_variable_selects_lock_path [OF o refl, of ex_i3lock]
  obtain j where j: "1 \<le> j" "j \<le> 4"
      "invoked (snd (on_lock ex_i3lock (menu0 False))) = map Run (take j ?c4)"
      "\<forall>i<j - 1. lock_fails (ex_i3lock (?c4 ! i))"
      "j < 4 \<longrightarrow> \<not> lock_fails (ex_i3lock (?c4 ! (j - 1)))"
    by (auto simp: e inv lock_chain_explicit)
  from j(1,2) have "j = 1 \<or> j = 2 \<or> j = 3 \<or> j = 4" by arith
  moreover have "j = 4 \<Longrightarrow> lock_fails (ex_i3lock (?c4 ! 2))"
    using j(4) [rule_format, of 2] by simp
  ultimately have "j = 3"
    using j(5) by (auto simp: ex_i3lock_def)
  with j(3) have b: "invoked (snd (on_lock ex_i3lock (menu0 False))) =
       [Run [''loginctl'', ''lock-session''], Run [''dm-tool'', ''lock''], Run [''i3lock'']]"
    by (simp add: numeral_eq_Suc)
  from h a o b show ?thesis by simp
qed


subsection \<open>Reading the style sheet back\<close>

lemma css_lines_layout: "css_lines bg fg ac = concat (map rule_lines (theme_rules bg fg ac))"
  by (simp add: css_lines_def theme_rules_def rule_lines_def decl_line_def)

lemma concat_map_concat_lines:
  "concat (map f (concat xss)) = concat (map (\<lambda>xs. concat (map f xs)) xss)"
  by (induction xss) simp_all

lemma css_text_layout: "css_text bg fg ac = concat (map rule_text (theme_rules bg fg ac))"
proof -
  have eq: "rule_text = (\<lambda>r. concat (map (\<lambda>l. CHR 0x0A # l) (rule_lines r)))"
    by (rule ext) (simp add: rule_text_def)
  show ?thesis
    unfolding css_text_def css_lines_layout concat_map_concat_lines eq
    by (simp add: comp_def)
qed

lemma fields_no_sep: "sep \<notin> set xs \<Longrightarrow> fields sep xs = [xs]"
  by (induction xs) auto

lemma fields_append_sep:
  "sep \<notin> set xs \<Longrightarrow> fields sep (xs @ sep # ys) = xs # fields sep ys"
  by (induction xs) auto

lemma blank_not_stop:
  "list_all css_blank w \<Longrightarrow> CHR ''{'' \<notin> set w \<and> CHR ''}'' \<notin> set w
      \<and> CHR '':'' \<notin> set w \<and> CHR '';'' \<notin> set w"
  by (induction w) (auto simp: css_blank_def)

lemma trim_word:
  assumes "list_all css_blank a" "list_all css_blank b"
    and "s \<noteq> []" "\<not> css_blank (hd s)" "\<not> css_blank (last s)"
  shows "trim (a @ s @ b) = s"
proof -
  from assms(3,4) have 1: "dropWhile css_blank (s @ b) = s @ b"
    by (cases s) simp_all
  from assms(1) have 2: "dropWhile css_blank (a @ s @ b) = s @ b"
    using 1 by (simp add: dropWhile_append2 list_all_iff)
  from assms(3,5) have 3: "dropWhile css_blank (rev s) = rev s"
    by (cases "rev s") (simp_all add: last_rev [symmetric] hd_rev)
  have "dropWhile css_blank (rev b @ rev s) = dropWhile css_blank (rev s)"
    by (rule dropWhile_append2) (use assms(2) in \<open>simp add: list_all_iff\<close>)
  with 3 have 4: "dropWhile css_blank (rev b @ rev s) = rev s" by simp
  show ?thesis by (simp add: trim_def 2 4)
qed

lemma css_word_no_stop: "css_word stops s \<Longrightarrow> c \<in> set stops \<Longrightarrow> c \<notin> set s"
  by (auto simp: css_word_def)

lemma css_word_not_blank: "css_word stops s \<Longrightarrow> \<not> list_all css_blank (a @ s @ b)"
proof -
  assume "css_word stops s"
  then have "s \<noteq> []" "\<not> css_blank (hd s)" by (simp_all add: css_word_def)
  then have "hd s \<in> set s" "\<not> css_blank (hd s)" by simp_all
  then show ?thesis by (auto simp: list_all_iff)
qed

lemma css_declaration_line:
  assumes "list_all css_blank w" "plain_decl d"
  shows "css_declaration (w @ CHR 0x0A # ''            '' @ fst d @ '': '' @ snd d) = d"
proof -
  let ?a = "w @ CHR 0x0A # ''            ''"
  from assms have p: "css_word ''{}:;'' (fst d)" and v: "css_word ''{};'' (snd d)"
    by (simp_all add: plain_decl_def)
  have a: "list_all css_blank ?a" using assms(1) by (simp add: css_blank_def)
  have nc: "\<forall>c\<in>set (?a @ fst d). c \<noteq> CHR '':''"
    using blank_not_stop [OF a] css_word_no_stop [OF p, of "CHR '':''"] by auto
  have split: "w @ CHR 0x0A # ''            '' @ fst d @ '': '' @ snd d
                 = (?a @ fst d) @ CHR '':'' # (CHR 0x20 # snd d)" by simp
  have t: "takeWhile (\<lambda>c. c \<noteq> CHR '':'') ((?a @ fst d) @ CHR '':'' # (CHR 0x20 # snd d))
             = ?a @ fst d"
    using nc by (subst takeWhile_append2) auto
  have d: "dropWhile (\<lambda>c. c \<noteq> CHR '':'') ((?a @ fst d) @ CHR '':'' # (CHR 0x20 # snd d))
             = CHR '':'' # (CHR 0x20 # snd d)"
    using nc by (subst dropWhile_append2) auto
  have t1: "trim (?a @ fst d @ []) = fst d"
    using p by (intro trim_word [OF a]) (simp_all add: css_word_def)
  have t2: "trim ([CHR 0x20] @ snd d @ []) = snd d"
    using v by (intro trim_word) (simp_all add: css_word_def css_blank_def)
  show ?thesis
    unfolding css_declaration_def split t d using t1 t2 by (simp add: prod_eq_iff)
qed

lemma css_declarations_layout:
  assumes "list_all css_blank w" "list_all css_blank t" "list_all plain_decl ds"
  shows "css_declarations (w @ decls_text ds @ t) = ds"
  using assms
proof (induction ds arbitrary: w)
  case Nil
  from Nil.prems have b: "list_all css_blank (w @ t)" by simp
  from blank_not_stop [OF b] have "fields (CHR '';'') (w @ t) = [w @ t]"
    by (intro fields_no_sep) simp
  with b show ?case by (simp add: css_declarations_def decls_text_def)
next
  case (Cons d ds)
  let ?chunk = "w @ CHR 0x0A # ''            '' @ fst d @ '': '' @ snd d"
  from Cons.prems have d: "plain_decl d" and ds: "list_all plain_decl ds" by simp_all
  from d have p: "css_word ''{}:;'' (fst d)" and v: "css_word ''{};'' (snd d)"
    by (simp_all add: plain_decl_def)
  have split: "w @ decls_text (d # ds) @ t = ?chunk @ CHR '';'' # ([] @ decls_text ds @ t)"
    by (simp add: decls_text_def decl_line_def)
  have no: "CHR '';'' \<notin> set ?chunk"
    using blank_not_stop [OF Cons.prems(1)] css_word_no_stop [OF p, of "CHR '';''"]
      css_word_no_stop [OF v, of "CHR '';''"] by simp
  have nb: "\<not> list_all css_blank ?chunk"
    using css_word_not_blank [OF p, of "w @ CHR 0x0A # ''            ''" "'': '' @ snd d"] by simp
  have rest: "css_declarations ([] @ decls_text ds @ t) = ds"
    using Cons.prems(2) ds by (intro Cons.IH) simp_all
  have "css_declarations (w @ decls_text (d # ds) @ t)
          = css_declaration ?chunk # css_declarations ([] @ decls_text ds @ t)"
    unfolding split css_declarations_def fields_append_sep [OF no] using nb by simp
  with rest css_declaration_line [OF Cons.prems(1) d] show ?case by simp
qed

lemma decls_text_no_brace:
  "list_all plain_decl ds \<Longrightarrow> CHR ''{'' \<notin> set (decls_text ds) \<and> CHR ''}'' \<notin> set (decls_text ds)"
proof (induction ds)
  case Nil
  then show ?case by (simp add: decls_text_def)
next
  case (Cons d ds)
  then have p: "css_word ''{}:;'' (fst d)" and v: "css_word ''{};'' (snd d)"
    by (simp_all add: plain_decl_def)
  have "decls_text (d # ds) = CHR 0x0A # decl_line d @ decls_text ds"
    by (simp add: decls_text_def)
  with Cons css_word_no_stop [OF p, of "CHR ''{''"] css_word_no_stop [OF p, of "CHR ''}''"]
    css_word_no_stop [OF v, of "CHR ''{''"] css_word_no_stop [OF v, of "CHR ''}''"]
  show ?case by (simp add: decl_line_def)
qed

lemma rule_text_eq:
  "rule_text r =
     (CHR 0x0A # ''        '' @ fst r @ '' {'' @ decls_text (snd r) @ CHR 0x0A # ''        '')
       @ CHR ''}'' # (CHR 0x0A # ''        '')"
  by (simp add: rule_text_def rule_lines_def decls_text_def comp_def)

lemma css_rule_layout:
  assumes "list_all css_blank w" "plain_rule r"
  shows "css_rule (w @ CHR 0x0A # ''        '' @ fst r @ '' {'' @ decls_text (snd r)
                     @ CHR 0x0A # ''        '') = r"
proof -
  let ?a = "w @ CHR 0x0A # ''        ''"
  let ?t = "CHR 0x0A # ''        ''"
  from assms(2) have s: "css_word ''{}'' (fst r)" and ds: "list_all plain_decl (snd r)"
    by (simp_all add: plain_rule_def)
  have a: "list_all css_blank ?a" using assms(1) by (simp add: css_blank_def)
  have tb: "list_all css_blank ?t" by (simp add: css_blank_def)
  have split: "w @ CHR 0x0A # ''        '' @ fst r @ '' {'' @ decls_text (snd r) @ ?t
                 = (?a @ fst r @ '' '') @ CHR ''{'' # (decls_text (snd r) @ ?t)" by simp
  have nc: "\<forall>c\<in>set (?a @ fst r @ '' ''). c \<noteq> CHR ''{''"
    using blank_not_stop [OF a] css_word_no_stop [OF s, of "CHR ''{''"] by auto
  have t: "takeWhile (\<lambda>c. c \<noteq> CHR ''{'') ((?a @ fst r @ '' '') @ CHR ''{'' # (decls_text (snd r) @ ?t))
             = ?a @ fst r @ '' ''"
    using nc by (subst takeWhile_append2) auto
  have d: "dropWhile (\<lambda>c. c \<noteq> CHR ''{'') ((?a @ fst r @ '' '') @ CHR ''{'' # (decls_text (snd r) @ ?t))
             = CHR ''{'' # (decls_text (snd r) @ ?t)"
    using nc by (subst dropWhile_append2) auto
  have t1: "trim (?a @ fst r @ '' '') = fst r"
    using s by (intro trim_word [OF a]) (simp_all add: css_word_def css_blank_def)
  have t2: "css_declarations ([] @ decls_text (snd r) @ ?t) = snd r"
    using ds tb by (intro css_declarations_layout) simp_all
  show ?thesis
    unfolding css_rule_def split t d using t1 t2 by (simp add: prod_eq_iff)
qed

lemma css_rules_layout:
  assumes "list_all css_blank w" "list_all plain_rule rs"
  shows "css_rules (w @ concat (map rule_text rs)) = rs"
  using assms
proof (induction rs arbitrary: w)
  case Nil
  from blank_not_stop [OF Nil.prems(1)] have "fields (CHR ''}'') w = [w]"
    by (intro fields_no_sep) simp
  with Nil.prems(1) show ?case by (simp add: css_rules_def)
next
  case (Cons r rs)
  let ?chunk = "w @ CHR 0x0A # ''        '' @ fst r @ '' {'' @ decls_text (snd r)
                  @ CHR 0x0A # ''        ''"
  let ?t = "CHR 0x0A # ''        ''"
  from Cons.prems have r: "plain_rule r" and rs: "list_all plain_rule rs" by simp_all
  from r have s: "css_word ''{}'' (fst r)" and ds: "list_all plain_decl (snd r)"
    by (simp_all add: plain_rule_def)
  have tb: "list_all css_blank ?t" by (simp add: css_blank_def)
  have split: "w @ concat (map rule_text (r # rs))
                 = ?chunk @ CHR ''}'' # (?t @ concat (map rule_text rs))"
    by (simp add: rule_text_eq)
  have no: "CHR ''}'' \<notin> set ?chunk"
    using blank_not_stop [OF Cons.prems(1)] css_word_no_stop [OF s, of "CHR ''}''"]
      decls_text_no_brace [OF ds] by simp
  have nb: "\<not> list_all css_blank ?chunk"
    using css_word_not_blank [OF s, of "w @ CHR 0x0A # ''        ''"
        "'' {'' @ decls_text (snd r) @ CHR 0x0A # ''        ''"] by simp
  have rest: "css_rules (?t @ concat (map rule_text rs)) = rs"
    using tb rs by (rule Cons.IH)
  have "css_rules (w @ concat (map rule_text (r # rs)))
          = css_rule ?chunk # css_rules (?t @ concat (map rule_text rs))"
    unfolding split css_rules_def fields_append_sep [OF no] using nb by simp
  with rest css_rule_layout [OF Cons.prems(1) r] show ?case by simp
qed

lemma valid_color_chars:
  assumes "valid_color s"
  shows "s \<noteq> []" and "hd s = CHR ''#''" and "hex_digit (last s)"
    and "\<forall>c\<in>set s. c = CHR ''#'' \<or> hex_digit c"
proof -
  from assms obtain ds where s: "s = CHR ''#'' # ds" and len: "length ds = 6"
    and hex: "list_all hex_digit ds"
    by (auto simp: valid_color_def split: list.splits)
  from len have ne: "ds \<noteq> []" by auto
  show "s \<noteq> []" "hd s = CHR ''#''" using s by simp_all
  from ne hex have "hex_digit (last ds)" by (simp add: list_all_iff)
  with ne s show "hex_digit (last s)" by simp
  from s hex show "\<forall>c\<in>set s. c = CHR ''#'' \<or> hex_digit c" by (auto simp: list_all_iff)
qed

lemma hex_digit_plain:
  "hex_digit c \<Longrightarrow> \<not> css_blank c \<and> c \<noteq> CHR ''{'' \<and> c \<noteq> CHR ''}'' \<and> c \<noteq> CHR '':'' \<and> c \<noteq> CHR '';''"
  by (auto simp: hex_digit_def css_blank_def)

lemma valid_color_word:
  assumes "valid_color s" "set stops \<subseteq> set ''{}:;''"
  shows "css_word stops s"
proof -
  note c = valid_color_chars [OF assms(1)]
  have "\<forall>x\<in>set s. x \<notin> set ''{}:;''"
    using c(4) hex_digit_plain by fastforce
  with assms(2) have "\<forall>c\<in>set stops. c \<notin> set s" by blast
  moreover have "\<not> css_blank (hd s)" using c(2) by (simp add: css_blank_def)
  moreover have "\<not> css_blank (last s)" using c(3) hex_digit_plain by blast
  ultimately show ?thesis using c(1) by (simp add: css_word_def)
qed

lemma css_word_prefix:
  assumes "css_word stops s" "a \<noteq> []" "\<not> css_blank (hd a)" "\<forall>c\<in>set stops. c \<notin> set a"
  shows "css_word stops (a @ s)"
  using assms by (auto simp: css_word_def)

lemma css_word_between:
  assumes "css_word stops s" "a \<noteq> []" "\<not> css_blank (hd a)" "\<forall>c\<in>set stops. c \<notin> set a"
    and "b \<noteq> []" "\<not> css_blank (last b)" "\<forall>c\<in>set stops. c \<notin> set b"
  shows "css_word stops (a @ s @ b)"
  using assms by (auto simp: css_word_def)

lemma theme_rules_plain:
  assumes "valid_color bg" "valid_color fg" "valid_color ac"
  shows "list_all plain_rule (theme_rules bg fg ac)"
proof -
  have w: "css_word ''{};'' bg" "css_word ''{};'' fg" "css_word ''{};'' ac"
    using assms by (auto intro: valid_color_word)
  have lit: "css_word ''{}'' ''*''" "css_word ''{}'' ''window''" "css_word ''{}'' ''label''"
    "css_word ''{}'' ''button''" "css_word ''{}'' ''button:hover''" "css_word ''{}'' ''button:active''"
    "css_word ''{}:;'' ''font-family''" "css_word ''{}:;'' ''font-size''"
    "css_word ''{}:;'' ''background-color''" "css_word ''{}:;'' ''border-radius''"
    "css_word ''{}:;'' ''border''" "css_word ''{}:;'' ''color''" "css_word ''{}:;'' ''padding''"
    "css_word ''{}:;'' ''margin''" "css_word ''{}:;'' ''transition''"
    "css_word ''{};'' [CHR 0x27, CHR ''S'', CHR ''a'', CHR ''n'', CHR ''s'', CHR 0x27]"
    "css_word ''{};'' ''14px''" "css_word ''{};'' ''0px''" "css_word ''{};'' ''12px 24px''"
    "css_word ''{};'' ''0''" "css_word ''{};'' ''none''" "css_word ''{};'' ''all 0.2s ease''"
    by (simp_all add: css_word_def css_blank_def)
  have c1: "css_word ''{};'' (''2px solid '' @ ac)"
    by (rule css_word_prefix [OF w(3)]) (simp_all add: css_blank_def)
  have c2: "css_word ''{};'' (''shade('' @ bg @ '', 1.1)'')"
    by (rule css_word_between [OF w(1)]) (simp_all add: css_blank_def)
  have c3: "css_word ''{};'' (''shade('' @ ac @ '', 0.9)'')"
    by (rule css_word_between [OF w(3)]) (simp_all add: css_blank_def)
  show ?thesis
    unfolding theme_rules_def
    by (simp add: plain_rule_def plain_decl_def w lit c1 c2 c3 del: append.simps)
qed

lemma css_rules_css_text:
  assumes "valid_color bg" "valid_color fg" "valid_color ac"
  shows "css_rules (css_text bg fg ac) = theme_rules bg fg ac"
proof -
  have "css_rules ([] @ concat (map rule_text (theme_rules bg fg ac))) = theme_rules bg fg ac"
    by (rule css_rules_layout) (simp_all add: theme_rules_plain [OF assms])
  then show ?thesis by (simp add: css_text_layout)
qed

lemma css_value_css_text:
  assumes "valid_color bg" "valid_color fg" "valid_color ac"
  shows "css_value (css_text bg fg ac) ''window'' ''border'' = Some (''2px solid '' @ ac)"
    and "css_value (css_text bg fg ac) ''window'' ''background-color'' = Some bg"
    and "css_value (css_text bg fg ac) ''label'' ''color'' = Some fg"
    and "css_value (css_text bg fg ac) ''button'' ''background-color''
           = Some (''shade('' @ bg @ '', 1.1)'')"
    and "css_value (css_text bg fg ac) ''button'' ''color'' = Some fg"
    and "css_value (css_text bg fg ac) ''button:hover'' ''background-color'' = Some ac"
    and "css_value (css_text bg fg ac) ''button:hover'' ''color'' = Some bg"
    and "css_value (css_text bg fg ac) ''button:active'' ''background-color''
           = Some (''shade('' @ ac @ '', 0.9)'')"
  unfolding css_value_def css_rules_css_text [OF assms] theme_rules_def
  by simp_all

subsection \<open>Colour conversion\<close>

lemma hex_digit_value: "hex_digit c \<Longrightarrow> digit_value c < 16"
  by (auto simp: hex_digit_def digit_value_def)

lemma hex_digit_not_space: "hex_digit c \<Longrightarrow> \<not> int_isspace c"
  by (auto simp: hex_digit_def int_isspace_def)

lemma hex_digit_neq:
  "hex_digit c \<Longrightarrow> c \<noteq> CHR ''+''" "hex_digit c \<Longrightarrow> c \<noteq> CHR ''-''"
  "hex_digit c \<Longrightarrow> c \<noteq> CHR ''_''" "hex_digit c \<Longrightarrow> c \<noteq> CHR ''x''"
  "hex_digit c \<Longrightarrow> c \<noteq> CHR ''X''" "hex_digit c \<Longrightarrow> c \<noteq> CHR ''#''"
  by (auto simp: hex_digit_def)

lemma py_int16_two_digits:
  assumes "hex_digit a" "hex_digit b"
  shows "py_int16 [a, b] = Inr (int (hex_byte a b))"
  using assms hex_digit_value [of a] hex_digit_value [of b]
  by (simp add: py_int16_def hex_digit_not_space hex_digit_neq int16_char_def hex_value_def
      hex_byte_def)

lemma hex_byte_le: "hex_digit a \<Longrightarrow> hex_digit b \<Longrightarrow> hex_byte a b \<le> 255"
  using hex_digit_value [of a] hex_digit_value [of b] by (simp add: hex_byte_def)

lemma valid_color_digits:
  assumes "valid_color text"
  obtains a b c d e f where "text = [CHR ''#'', a, b, c, d, e, f]"
    and "hex_digit a" "hex_digit b" "hex_digit c" "hex_digit d" "hex_digit e" "hex_digit f"
proof -
  from assms obtain ds where t: "text = CHR ''#'' # ds" and len: "length ds = 6"
    and hex: "list_all hex_digit ds"
    by (auto simp: valid_color_def split: list.splits)
  from len obtain a b c d e f where "ds = [a, b, c, d, e, f]"
    by (auto simp: length_Suc_conv eval_nat_numeral)
  with t hex that show ?thesis by simp
qed

lemma hex_to_rgba_digits:
  assumes "hex_digit a" "hex_digit b" "hex_digit c" "hex_digit d" "hex_digit e" "hex_digit f"
  shows "hex_to_rgba (JStr [CHR ''#'', a, b, c, d, e, f]) =
           Inr \<lparr>red = real (hex_byte a b) / 255, green = real (hex_byte c d) / 255,
                blue = real (hex_byte e f) / 255, alpha = 1\<rparr>"
  using assms
  by (simp add: hex_to_rgba_def hex_digit_neq py_int16_two_digits)

lemma hex_to_rgba_valid: "valid_color text \<Longrightarrow> \<exists>c. hex_to_rgba (JStr text) = Inr c"
  by (erule valid_color_digits) (simp add: hex_to_rgba_digits)

text \<open>
  Claim C10. For every text made of \<^verbatim>\<open>#\<close> and exactly six hexadecimal digits,
  \<^verbatim>\<open>hex_to_rgba\<close> raises nothing and returns the colour whose red, green and blue are
  the bytes of the first, second and third pair of digits, each divided by 255, and whose
  alpha is 1. Every byte is at most 255, so every component lies between 0 and 1.
\<close>

theorem hex_to_rgba_valid_color:
  assumes "valid_color text"
  shows "hex_to_rgba (JStr text) =
           Inr \<lparr>red = real (hex_byte (text ! 1) (text ! 2)) / 255,
                green = real (hex_byte (text ! 3) (text ! 4)) / 255,
                blue = real (hex_byte (text ! 5) (text ! 6)) / 255,
                alpha = 1\<rparr>
         \<and> hex_byte (text ! 1) (text ! 2) \<le> 255
         \<and> hex_byte (text ! 3) (text ! 4) \<le> 255
         \<and> hex_byte (text ! 5) (text ! 6) \<le> 255
         \<and> (\<forall>c. hex_to_rgba (JStr text) = Inr c \<longrightarrow>
               0 \<le> red c \<and> red c \<le> 1 \<and> 0 \<le> green c \<and> green c \<le> 1
               \<and> 0 \<le> blue c \<and> blue c \<le> 1 \<and> alpha c = 1)"
proof -
  from assms obtain a b c d e f where t: "text = [CHR ''#'', a, b, c, d, e, f]"
    and h: "hex_digit a" "hex_digit b" "hex_digit c" "hex_digit d" "hex_digit e" "hex_digit f"
    by (rule valid_color_digits)
  note le = hex_byte_le [OF h(1,2)] hex_byte_le [OF h(3,4)] hex_byte_le [OF h(5,6)]
  from le show ?thesis
    by (simp add: t hex_to_rgba_digits [OF h])
qed

text \<open>
  The accent of the built-in palette, \<^verbatim>\<open>#bd93f9\<close>, is the colour
  (189/255, 147/255, 249/255, 1).
\<close>

theorem hex_to_rgba_valid_color_witness:
  "valid_color ''#bd93f9''
   \<and> hex_to_rgba (JStr ''#bd93f9'') =
       Inr \<lparr>red = 189 / 255, green = 147 / 255, blue = 249 / 255, alpha = 1\<rparr>"
proof -
  have v: "valid_color ''#bd93f9''"
    by (simp add: valid_color_def hex_digit_def)
  have b: "hex_byte CHR ''b'' CHR ''d'' = 189" "hex_byte CHR ''9'' CHR ''3'' = 147"
    "hex_byte CHR ''f'' CHR ''9'' = 249"
    by (simp_all add: hex_byte_def digit_value_def)
  from hex_to_rgba_valid_color [OF v] v show ?thesis
    by (simp add: b)
qed

subsection \<open>The theme\<close>

lemma palette_ofD:
  assumes "palette_of w = Some P"
  shows "getitem2 w ''special'' ''background'' = Inr (JStr (background P))"
    and "getitem2 w ''special'' ''foreground'' = Inr (JStr (foreground P))"
    and "getitem2 w ''colors'' ''color4'' = Inr (JStr (accent P))"
  using assms by (auto simp: palette_of_def split: sum.splits json.splits)

lemma apply_theme_palette:
  assumes "palette_of w = Some P"
  shows "apply_theme str_of w = Inr (css_text (background P) (foreground P) (accent P))"
  by (simp add: apply_theme_def palette_ofD [OF assms] fmt_def)

lemma palette_of_scenario:
  "palette_of scenario_colors =
     Some \<lparr>background = ''#000000'', foreground = ''#ffffff'', accent = ''#ff00ff''\<rparr>"
  by (simp add: palette_of_def scenario_colors_def getitem2_def getitem_def)

lemma palette_of_default: "palette_of default_colors = Some default_palette"
  by (simp add: palette_of_def default_colors_def default_palette_def getitem2_def getitem_def)

lemma valid_default_palette: "valid_palette default_palette"
  by (simp add: valid_palette_def default_palette_def valid_color_def hex_digit_def)

text \<open>
  Claim C6. For every colour document whose palette is valid, \<^verbatim>\<open>apply_theme\<close> raises
  nothing and the style sheet it renders sets the border of \<^verbatim>\<open>window\<close> to
  \<^verbatim>\<open>2px solid\<close> and the accent colour, and the colour of \<^verbatim>\<open>label\<close> to the
  foreground colour. For the cache file of the scenario (background \<^verbatim>\<open>#000000\<close>,
  foreground \<^verbatim>\<open>#ffffff\<close>, color4 \<^verbatim>\<open>#ff00ff\<close>) the loader returns the document and
  the rendered border colour is \<^verbatim>\<open>#ff00ff\<close>, the label colour \<^verbatim>\<open>#ffffff\<close>.
\<close>

theorem theme_border_and_label:
  "(palette_of w = Some P \<and> valid_palette P \<longrightarrow>
      (\<exists>css. apply_theme str_of w = Inr css
         \<and> css_value css ''window'' ''border'' = Some (''2px solid '' @ accent P)
         \<and> css_value css ''label'' ''color'' = Some (foreground P)))
   \<and> load_wal_colors (Document scenario_colors) = Inr scenario_colors
   \<and> (\<exists>css. apply_theme str_of scenario_colors = Inr css
         \<and> css_value css ''window'' ''border'' = Some ''2px solid #ff00ff''
         \<and> css_value css ''label'' ''color'' = Some ''#ffffff'')"
proof (intro conjI impI)
  assume a: "palette_of w = Some P \<and> valid_palette P"
  then have v: "valid_color (background P)" "valid_color (foreground P)" "valid_color (accent P)"
    by (simp_all add: valid_palette_def)
  from a css_value_css_text(1,3) [OF v] apply_theme_palette [of w P str_of]
  show "\<exists>css. apply_theme str_of w = Inr css
         \<and> css_value css ''window'' ''border'' = Some (''2px solid '' @ accent P)
         \<and> css_value css ''label'' ''color'' = Some (foreground P)" by simp
next
  show "load_wal_colors (Document scenario_colors) = Inr scenario_colors"
    by (simp add: load_wal_colors_def)
next
  have v: "valid_color ''#000000''" "valid_color ''#ffffff''" "valid_color ''#ff00ff''"
    by (simp_all add: valid_color_def hex_digit_def)
  from css_value_css_text(1,3) [OF v] apply_theme_palette [OF palette_of_scenario, of str_of]
  show "\<exists>css. apply_theme str_of scenario_colors = Inr css
         \<and> css_value css ''window'' ''border'' = Some ''2px solid #ff00ff''
         \<and> css_value css ''label'' ''color'' = Some ''#ffffff''" by simp
qed

text \<open>
  With the built-in palette the border is \<^verbatim>\<open>2px solid #bd93f9\<close> and the labels are
  \<^verbatim>\<open>#f8f8f2\<close>.
\<close>

theorem theme_border_and_label_witness:
  "palette_of default_colors = Some default_palette \<and> valid_palette default_palette
   \<and> (\<exists>css. apply_theme str_none default_colors = Inr css
         \<and> css_value css ''window'' ''border'' = Some ''2px solid #bd93f9''
         \<and> css_value css ''label'' ''color'' = Some ''#f8f8f2'')"
proof -
  have a: "accent default_palette = ''#bd93f9''" "foreground default_palette = ''#f8f8f2''"
    by (simp_all add: default_palette_def)
  from theme_border_and_label [of default_colors default_palette str_none]
    palette_of_default valid_default_palette
  show ?thesis by (simp add: a)
qed

text \<open>
  Claim C9. The text \<^verbatim>\<open>apply_theme\<close> renders is determined by the three colours of
  the palette alone. For a valid palette it sets the border of the window to the accent
  colour, the background of a button to \<^verbatim>\<open>shade(background, 1.1)\<close>, the background of
  a hovered button to the accent colour and its text to the background colour, and the
  background of a pressed button to \<^verbatim>\<open>shade(accent, 0.9)\<close>.
\<close>

theorem theme_is_function_of_palette:
  assumes "palette_of w = Some P" and "valid_palette P"
  shows "apply_theme str_of w = Inr (css_text (background P) (foreground P) (accent P))
     \<and> css_value (css_text (background P) (foreground P) (accent P)) ''window'' ''border''
         = Some (''2px solid '' @ accent P)
     \<and> css_value (css_text (background P) (foreground P) (accent P)) ''button'' ''background-color''
         = Some (''shade('' @ background P @ '', 1.1)'')
     \<and> css_value (css_text (background P) (foreground P) (accent P)) ''button:hover'' ''background-color''
         = Some (accent P)
     \<and> css_value (css_text (background P) (foreground P) (accent P)) ''button:hover'' ''color''
         = Some (background P)
     \<and> css_value (css_text (background P) (foreground P) (accent P)) ''button:active'' ''background-color''
         = Some (''shade('' @ accent P @ '', 0.9)'')"
proof -
  from assms(2) have v: "valid_color (background P)" "valid_color (foreground P)"
    "valid_color (accent P)" by (simp_all add: valid_palette_def)
  from css_value_css_text(1,4,6,7,8) [OF v] apply_theme_palette [OF assms(1), of str_of]
  show ?thesis by simp
qed

text \<open>
  The style sheet of the built-in palette.
\<close>

theorem theme_is_function_of_palette_witness:
  "palette_of default_colors = Some default_palette \<and> valid_palette default_palette
   \<and> apply_theme str_none default_colors = Inr (css_text ''#282a36'' ''#f8f8f2'' ''#bd93f9'')
   \<and> css_value (css_text ''#282a36'' ''#f8f8f2'' ''#bd93f9'') ''window'' ''border''
       = Some ''2px solid #bd93f9''
   \<and> css_value (css_text ''#282a36'' ''#f8f8f2'' ''#bd93f9'') ''button'' ''background-color''
       = Some ''shade(#282a36, 1.1)''
   \<and> css_value (css_text ''#282a36'' ''#f8f8f2'' ''#bd93f9'') ''button:hover'' ''background-color''
       = Some ''#bd93f9''
   \<and> css_value (css_text ''#282a36'' ''#f8f8f2'' ''#bd93f9'') ''button:hover'' ''color''
       = Some ''#282a36''
   \<and> css_value (css_text ''#282a36'' ''#f8f8f2'' ''#bd93f9'') ''button:active'' ''background-color''
       = Some ''shade(#bd93f9, 0.9)''"
proof -
  have a: "accent default_palette = ''#bd93f9''" "foreground default_palette = ''#f8f8f2''"
    "background default_palette = ''#282a36''"
    by (simp_all add: default_palette_def)
  from theme_is_function_of_palette [OF palette_of_default valid_default_palette, of str_none]
    palette_of_default valid_default_palette
  show ?thesis by (simp add: a)
qed

subsection \<open>Reboot and shutdown\<close>

lemma override_labels_valid:
  "valid_color fg \<Longrightarrow> override_labels labels (JStr fg) = None"
  using hex_to_rgba_valid [of fg] by (induction labels) auto

lemma confirm_action_shown:
  assumes "palette_of (wal_colors s) = Some P" and "valid_palette P"
  shows "confirm_action sys resp action message command s =
           (None, (if resp = ResponseYes
                   then s\<lparr>invoked := invoked s @ [System command], destroyed := True\<rparr>
                   else s)\<lparr>dialog_open := False\<rparr>)"
proof -
  from assms(2) have v: "valid_color (background P)" "valid_color (foreground P)"
    by (simp_all add: valid_palette_def)
  from hex_to_rgba_valid [OF v(1)] obtain c where c: "hex_to_rgba (JStr (background P)) = Inr c" ..
  show ?thesis
    by (simp add: confirm_action_def palette_ofD [OF assms(1)] c override_labels_valid [OF v(2)]
        os_system_def destroy_def)
qed

text \<open>
  Claim C4. In a window with a valid palette (so that the confirmation dialog can be
  themed and shown): when the dialog ends with Yes, Reboot starts
  \<^verbatim>\<open>systemctl reboot\<close> and nothing else, once, and destroys the window; Shutdown does
  the same with \<^verbatim>\<open>systemctl poweroff\<close>. When the dialog ends in any other way (No, or
  dismissed), no command is started and the state of the window is what it was: only the
  dialog is destroyed.
\<close>

theorem confirmation_decides_command:
  assumes "palette_of (wal_colors s) = Some P" and "valid_palette P"
  shows "on_reboot sys ResponseYes s =
           (None, s\<lparr>invoked := invoked s @ [System ''systemctl reboot''],
                     destroyed := True, dialog_open := False\<rparr>)
     \<and> on_shutdown sys ResponseYes s =
           (None, s\<lparr>invoked := invoked s @ [System ''systemctl poweroff''],
                     destroyed := True, dialog_open := False\<rparr>)
     \<and> (resp \<noteq> ResponseYes \<longrightarrow>
           on_reboot sys resp s = (None, s\<lparr>dialog_open := False\<rparr>)
         \<and> on_shutdown sys resp s = (None, s\<lparr>dialog_open := False\<rparr>))"
  by (simp add: on_reboot_def on_shutdown_def confirm_action_shown [OF assms])

text \<open>
  A fresh window: Yes starts the one command and destroys the window, No and a dismissed
  dialog leave the window as it was.
\<close>

theorem confirmation_decides_command_witness:
  "palette_of (wal_colors (menu0 False)) = Some default_palette \<and> valid_palette default_palette
   \<and> on_reboot sys_ok ResponseYes (menu0 False) =
       (None, (menu0 False)\<lparr>invoked := [System ''systemctl reboot''], destroyed := True\<rparr>)
   \<and> on_shutdown sys_ok ResponseYes (menu0 False) =
       (None, (menu0 False)\<lparr>invoked := [System ''systemctl poweroff''], destroyed := True\<rparr>)
   \<and> on_reboot sys_ok ResponseNo (menu0 False) = (None, menu0 False)
   \<and> on_shutdown sys_ok ResponseDeleteEvent (menu0 False) = (None, menu0 False)"
proof -
  have p: "palette_of (wal_colors (menu0 False)) = Some default_palette"
    by (simp add: menu0_def palette_of_default)
  have m: "invoked (menu0 False) = []" "(menu0 False)\<lparr>dialog_open := False\<rparr> = menu0 False"
    by (simp_all add: menu0_def)
  from confirmation_decides_command [OF p valid_default_palette, of sys_ok ResponseNo]
    confirmation_decides_command [OF p valid_default_palette, of sys_ok ResponseDeleteEvent]
    p valid_default_palette
  show ?thesis by (simp add: m menu0_def)
qed

text \<open>
  Claim C7. After Yes, what Reboot and Shutdown do does not depend on the status
  \<^verbatim>\<open>os.system\<close> returns: for any two behaviours \<open>sys\<close> and \<open>sys'\<close> of the system
  the handler ends in the same state, with the single fixed command started, no
  exception raised and the window destroyed.
\<close>

theorem command_status_is_ignored:
  assumes "palette_of (wal_colors s) = Some P" and "valid_palette P"
  shows "on_reboot sys ResponseYes s = on_reboot sys' ResponseYes s
     \<and> on_shutdown sys ResponseYes s = on_shutdown sys' ResponseYes s
     \<and> fst (on_reboot sys ResponseYes s) = None
     \<and> fst (on_shutdown sys ResponseYes s) = None
     \<and> destroyed (snd (on_reboot sys ResponseYes s))
     \<and> destroyed (snd (on_shutdown sys ResponseYes s))
     \<and> invoked (snd (on_reboot sys ResponseYes s)) = invoked s @ [System ''systemctl reboot'']
     \<and> invoked (snd (on_shutdown sys ResponseYes s)) = invoked s @ [System ''systemctl poweroff'']"
  by (simp add: on_reboot_def on_shutdown_def confirm_action_shown [OF assms])

text \<open>
  A system where \<^verbatim>\<open>systemctl\<close> succeeds and one where it fails: the handler ends in the
  same state, with the window destroyed.
\<close>

theorem command_status_is_ignored_witness:
  "palette_of (wal_colors (menu0 True)) = Some default_palette \<and> valid_palette default_palette
   \<and> fst (os_system sys_ok ''systemctl reboot'' (menu0 True)) = 0
   \<and> fst (os_system sys_fail ''systemctl reboot'' (menu0 True)) = 256
   \<and> on_reboot sys_ok ResponseYes (menu0 True) = on_reboot sys_fail ResponseYes (menu0 True)
   \<and> destroyed (snd (on_reboot sys_fail ResponseYes (menu0 True)))
   \<and> destroyed (snd (on_shutdown sys_fail ResponseYes (menu0 True)))"
proof -
  have p: "palette_of (wal_colors (menu0 True)) = Some default_palette"
    by (simp add: menu0_def palette_of_default)
  from command_status_is_ignored [OF p valid_default_palette, of sys_ok sys_fail]
    command_status_is_ignored [OF p valid_default_palette, of sys_fail sys_fail]
    p valid_default_palette
  show ?thesis by (simp add: os_system_def sys_ok_def sys_fail_def)
qed

subsection \<open>The colour cache\<close>

text \<open>
  Claim C2 as stated fails. A cache file that is not valid JSON makes the loader raise
  \<^verbatim>\<open>JSONDecodeError\<close> instead of returning the built-in palette, and a cache file that
  lacks keys is returned as it is: the caller receives a partial palette, in which the
  foreground colour is then missing.
\<close>

theorem load_wal_colors_counterexample:
  "load_wal_colors Malformed = Inl JSONDecodeError
   \<and> load_wal_colors Malformed \<noteq> Inr default_colors
   \<and> load_wal_colors (Document partial_colors) = Inr partial_colors
   \<and> load_wal_colors (Document partial_colors) \<noteq> Inr default_colors
   \<and> getitem2 partial_colors ''special'' ''foreground'' = Inl (KeyError ''foreground'')"
  by (simp add: load_wal_colors_def partial_colors_def default_colors_def getitem2_def
      getitem_def)

text \<open>
  Claim C2, amended. When the cache file is absent the loader returns exactly the
  built-in palette. When the file exists the loader returns the parsed document
  unchanged, whatever keys it has; a file that is not valid JSON raises
  \<^verbatim>\<open>JSONDecodeError\<close> and a file that cannot be opened raises \<^verbatim>\<open>OSError\<close>.
\<close>

theorem load_wal_colors_cases:
  "load_wal_colors Absent = Inr default_colors
   \<and> load_wal_colors (Document v) = Inr v
   \<and> load_wal_colors Malformed = Inl JSONDecodeError
   \<and> load_wal_colors Unreadable = Inl OSError"
  by (simp add: load_wal_colors_def)

end
